theory Spec2Isabelle
  imports Complex_Main "HOL-Library.Word" "HOL-Library.Sublist"
begin

section \<open>The battle page of mirutan-app: data model\<close>

text \<open>
  The development embeds \<^verbatim>\<open>src/app/battle/page.tsx\<close>. The component's React state
  (\<^verbatim>\<open>useState\<close> cells and \<^verbatim>\<open>useRef\<close> cells) is one record; every handler is a function
  from the state before the event to the state after it. React re-renders between two
  events, so a handler's closure reads the current state. JavaScript numbers are modelled
  as real numbers (no rounding), JavaScript strings as lists of 16-bit code units.
\<close>

type_synonym ustring = "16 word list"

record VideoItem =
  item_id :: ustring
  title :: ustring
  src :: ustring
  thumb :: ustring
  opponent :: "ustring option"
  matchDate :: "ustring option"
  contributors :: "ustring list option"

text \<open>A touch point: \<^verbatim>\<open>clientX\<close> and \<^verbatim>\<open>clientY\<close> of one entry of \<^verbatim>\<open>e.touches\<close>.\<close>

record touch =
  clientX :: real
  clientY :: real

text \<open>
  The state of \<^verbatim>\<open>BattlePage\<close>. \<open>vlist\<close> is the cell \<^verbatim>\<open>list\<close>, \<open>wheelAccum\<close> is
  \<^verbatim>\<open>wheelAccumRef.current\<close>, \<open>touchStart\<close> is \<^verbatim>\<open>touchStartRef.current\<close>. The browser's
  timer queue is part of the state: \<open>now\<close> is the clock in milliseconds and \<open>timers\<close>
  holds the due time of every pending \<^verbatim>\<open>setTimeout(() => closeHard(), 260)\<close>, in the
  order of their scheduling (the component schedules no other callback).
\<close>

record BattlePage =
  vlist :: "VideoItem list"
  loading :: bool
  active :: "VideoItem option"
  qstr :: ustring
  isPlaying :: bool
  isClosing :: bool
  dragX :: real
  dragY :: real
  wheelAccum :: real
  touchStart :: "(real \<times> real) option"
  now :: nat
  timers :: "nat list"

datatype error = TypeError

definition WHEEL_CLOSE_THRESHOLD :: real where "WHEEL_CLOSE_THRESHOLD = 120"
definition SWIPE_X_THRESHOLD :: real where "SWIPE_X_THRESHOLD = 80"
definition SWIPE_Y_THRESHOLD :: real where "SWIPE_Y_THRESHOLD = 100"
definition SWIPE_X_DISTANCE :: real where "SWIPE_X_DISTANCE = 200"
definition SWIPE_Y_DISTANCE :: real where "SWIPE_Y_DISTANCE = 240"

text \<open>The state of a freshly mounted component (the initial values of the hooks).\<close>

definition initial :: BattlePage where
  "initial = \<lparr> vlist = [], loading = True, active = None, qstr = [],
      isPlaying = False, isClosing = False, dragX = 0, dragY = 0,
      wheelAccum = 0, touchStart = None, now = 0, timers = [] \<rparr>"

section \<open>The close lifecycle\<close>

definition closeHard :: "BattlePage \<Rightarrow> BattlePage" where
  "closeHard s = s\<lparr> active := None, isPlaying := False, isClosing := False,
      dragX := 0, dragY := 0, wheelAccum := 0, touchStart := None \<rparr>"

text \<open>\<^verbatim>\<open>closeSoft\<close> sets the closing flag and schedules \<^verbatim>\<open>closeHard\<close> 260 ms from now.\<close>

definition closeSoft :: "BattlePage \<Rightarrow> BattlePage" where
  "closeSoft s = s\<lparr> isClosing := True, timers := timers s @ [now s + 260] \<rparr>"

definition Escape :: ustring where
  "Escape = [0x45, 0x73, 0x63, 0x61, 0x70, 0x65]"

definition onKeyDown :: "ustring \<Rightarrow> BattlePage \<Rightarrow> BattlePage" where
  "onKeyDown key s = (if key = Escape then closeSoft s else s)"

text \<open>
  \<^verbatim>\<open>onTransitionEnd\<close> of the dialog; \<open>direct\<close> is \<^verbatim>\<open>e.target === e.currentTarget\<close>.
\<close>

definition onTransitionEnd :: "bool \<Rightarrow> BattlePage \<Rightarrow> BattlePage" where
  "onTransitionEnd direct s = (if isClosing s \<and> direct then closeHard s else s)"

definition onPlay :: "BattlePage \<Rightarrow> BattlePage" where
  "onPlay s = s\<lparr> isPlaying := True, wheelAccum := 0 \<rparr>"

definition onPause :: "BattlePage \<Rightarrow> BattlePage" where
  "onPause s = s\<lparr> isPlaying := False \<rparr>"

section \<open>The gesture handlers\<close>

definition handleWheel :: "real \<Rightarrow> BattlePage \<Rightarrow> BattlePage" where
  "handleWheel deltaY s =
     (if \<not> isPlaying s then s
      else if deltaY \<le> 0 then s
      else
        let s1 = s\<lparr> wheelAccum := wheelAccum s + deltaY \<rparr>;
            s2 = s1\<lparr> dragY := min (dragY s1 + deltaY * 0.4) SWIPE_Y_DISTANCE \<rparr>
        in if wheelAccum s2 \<ge> WHEEL_CLOSE_THRESHOLD then closeSoft s2 else s2)"

text \<open>
  The touch handlers read \<^verbatim>\<open>e.touches[0]\<close>; on an empty touch list that value is
  \<^verbatim>\<open>undefined\<close> and reading \<^verbatim>\<open>clientX\<close> throws a TypeError, before any state is written.
\<close>

definition handleTouchStart :: "touch list \<Rightarrow> BattlePage \<Rightarrow> error + BattlePage" where
  "handleTouchStart touches s =
     (if \<not> isPlaying s then Inr s
      else case touches of
        [] \<Rightarrow> Inl TypeError
      | t # _ \<Rightarrow> Inr (s\<lparr> touchStart := Some (clientX t, clientY t), dragX := 0, dragY := 0 \<rparr>))"

definition handleTouchMove :: "touch list \<Rightarrow> BattlePage \<Rightarrow> error + BattlePage" where
  "handleTouchMove touches s =
     (if \<not> isPlaying s then Inr s
      else case touchStart s of
        None \<Rightarrow> Inr s
      | Some (ax, ay) \<Rightarrow>
          (case touches of
             [] \<Rightarrow> Inl TypeError
           | t # _ \<Rightarrow>
               let dx = max 0 (clientX t - ax);
                   dy = max 0 (clientY t - ay)
               in Inr (s\<lparr> dragX := dx, dragY := dy \<rparr>)))"

definition shouldClose :: "BattlePage \<Rightarrow> bool" where
  "shouldClose s \<longleftrightarrow>
     (dragX s > SWIPE_X_THRESHOLD \<and> dragX s > \<bar>dragY s\<bar>) \<or>
     (dragY s > SWIPE_Y_THRESHOLD \<and> dragY s \<ge> \<bar>dragX s\<bar>)"

definition handleTouchEnd :: "BattlePage \<Rightarrow> BattlePage" where
  "handleTouchEnd s =
     (if \<not> isPlaying s \<or> touchStart s = None then s
      else
        let s1 = (if shouldClose s then closeSoft s else s\<lparr> dragX := 0, dragY := 0 \<rparr>)
        in s1\<lparr> touchStart := None \<rparr>)"

section \<open>The visual mapping\<close>

text \<open>The values computed from the drag vector at every render.\<close>

definition progressX :: "BattlePage \<Rightarrow> real" where
  "progressX s = min (dragX s / SWIPE_X_DISTANCE) 1"

definition progressY :: "BattlePage \<Rightarrow> real" where
  "progressY s = min (dragY s / SWIPE_Y_DISTANCE) 1"

definition progress :: "BattlePage \<Rightarrow> real" where
  "progress s = max (progressX s) (progressY s)"

definition overlayAlpha :: "BattlePage \<Rightarrow> real" where
  "overlayAlpha s = 0.8 * (1 - 0.6 * progress s)"

definition translateY :: "BattlePage \<Rightarrow> real" where
  "translateY s = dragY s * 0.6"

definition translateX :: "BattlePage \<Rightarrow> real" where
  "translateX s = dragX s * 0.5"

definition scale :: "BattlePage \<Rightarrow> real" where
  "scale s = 1 - 0.05 * progress s"

text \<open>The \<^verbatim>\<open>opacity\<close> entry of \<^verbatim>\<open>modalStyle\<close>.\<close>

definition modalOpacity :: "BattlePage \<Rightarrow> real" where
  "modalOpacity s = 1 - 0.4 * progress s"

section \<open>Events\<close>

text \<open>
  What the environment can deliver to the component. \<open>CloseClick\<close> is a click on the
  backdrop or on the close button (both are bound to \<^verbatim>\<open>closeSoft\<close>), \<open>CardClick v\<close> a
  click on the card of \<open>v\<close>, \<open>Loaded\<close> and \<open>LoadFailed\<close> the two outcomes of the initial
  load, \<open>QueryInput\<close> a change of the search box, and \<open>Advance dt\<close> the passing of \<open>dt\<close>
  milliseconds, after which every timer that has become due runs its callback.
\<close>

datatype event =
    Wheel real
  | TouchStart "touch list"
  | TouchMove "touch list"
  | TouchEnd
  | CloseClick
  | KeyDown ustring
  | TransitionEnd bool
  | Play
  | Pause
  | CardClick VideoItem
  | Loaded "VideoItem list"
  | LoadFailed
  | QueryInput ustring
  | Advance nat

text \<open>An exception thrown by a handler leaves the state as it was before the event.\<close>

definition settle :: "BattlePage \<Rightarrow> error + BattlePage \<Rightarrow> BattlePage" where
  "settle s r = (case r of Inl _ \<Rightarrow> s | Inr s' \<Rightarrow> s')"

text \<open>
  Time passes: the clock moves to \<open>now s + dt\<close>, every pending timer whose due time has
  been reached is removed from the queue and runs \<^verbatim>\<open>closeHard\<close>, in scheduling order.
\<close>

definition advance :: "nat \<Rightarrow> BattlePage \<Rightarrow> BattlePage" where
  "advance dt s =
     (let t = now s + dt;
          due = filter (\<lambda>d. d \<le> t) (timers s);
          rest = filter (\<lambda>d. t < d) (timers s)
      in fold (\<lambda>_. closeHard) due (s\<lparr> now := t, timers := rest \<rparr>))"

text \<open>
  The overlay, the dialog and the video element are rendered only while \<^verbatim>\<open>active\<close> is
  set, and the key listener is installed only then; without an active item their events
  reach no handler. Which cards are on screen depends on the list and the query; the
  model lets any item be clicked.
\<close>

definition dispatch :: "event \<Rightarrow> BattlePage \<Rightarrow> BattlePage" where
  "dispatch e s =
     (case e of
        Advance dt \<Rightarrow> advance dt s
      | CardClick v \<Rightarrow> s\<lparr> active := Some v \<rparr>
      | Loaded vs \<Rightarrow> s\<lparr> vlist := vs, loading := False \<rparr>
      | LoadFailed \<Rightarrow> s\<lparr> loading := False \<rparr>
      | QueryInput q \<Rightarrow> s\<lparr> qstr := q \<rparr>
      | _ \<Rightarrow>
        if active s = None then s
        else (case e of
            Wheel deltaY \<Rightarrow> handleWheel deltaY s
          | TouchStart touches \<Rightarrow> settle s (handleTouchStart touches s)
          | TouchMove touches \<Rightarrow> settle s (handleTouchMove touches s)
          | TouchEnd \<Rightarrow> handleTouchEnd s
          | CloseClick \<Rightarrow> closeSoft s
          | KeyDown key \<Rightarrow> onKeyDown key s
          | TransitionEnd direct \<Rightarrow> onTransitionEnd direct s
          | Play \<Rightarrow> onPlay s
          | Pause \<Rightarrow> onPause s
          | _ \<Rightarrow> s))"

fun run :: "event list \<Rightarrow> BattlePage \<Rightarrow> BattlePage" where
  "run [] s = s"
| "run (e # es) s = run es (dispatch e s)"

text \<open>The time that passes during a sequence of events.\<close>

fun elapsed :: "event list \<Rightarrow> nat" where
  "elapsed [] = 0"
| "elapsed (Advance dt # es) = dt + elapsed es"
| "elapsed (_ # es) = elapsed es"

text \<open>All viewer and gesture state is cleared.\<close>

definition cleared :: "BattlePage \<Rightarrow> bool" where
  "cleared s \<longleftrightarrow> active s = None \<and> \<not> isPlaying s \<and> \<not> isClosing s \<and>
     dragX s = 0 \<and> dragY s = 0 \<and> wheelAccum s = 0 \<and> touchStart s = None"

text \<open>
  The number of wheel ticks of \<open>ds\<close> that are counted (\<open>deltaY > 0\<close>) and leave the
  accumulator, started at \<open>acc\<close>, at or above the threshold.
\<close>

fun wheel_commits :: "real \<Rightarrow> real list \<Rightarrow> nat" where
  "wheel_commits acc [] = 0"
| "wheel_commits acc (d # ds) =
     (if d \<le> 0 then wheel_commits acc ds
      else (if acc + d \<ge> WHEEL_CLOSE_THRESHOLD then 1 else 0) + wheel_commits (acc + d) ds)"

text \<open>A concrete item and a concrete viewer that is open and playing.\<close>

definition demo_item :: VideoItem where
  "demo_item = \<lparr> item_id = [0x61], title = [0x3042, 0x41], src = [], thumb = [],
      opponent = None, matchDate = Some [], contributors = Some [[0x62, 0x63]] \<rparr>"

definition playing :: BattlePage where
  "playing = run [CardClick demo_item, Play] initial"

section \<open>Client-side search\<close>

text \<open>
  \<^verbatim>\<open>norm\<close> lowercases, applies NFKC and maps hiragana to katakana. The two built-in
  string functions \<^verbatim>\<open>toLowerCase\<close> and \<^verbatim>\<open>normalize("NFKC")\<close> are parameters of the model.
  The character class of the \<^verbatim>\<open>replace\<close> is the code-unit range U+3041 to U+3096, and
  the replacement adds 0x60 to the code unit. On a string \<^verbatim>\<open>s || ""\<close> is \<open>s\<close>.
\<close>

definition kana :: "16 word \<Rightarrow> 16 word" where
  "kana ch = (if 0x3041 \<le> ch \<and> ch \<le> 0x3096 then ch + 0x60 else ch)"

definition norm_str :: "(ustring \<Rightarrow> ustring) \<Rightarrow> (ustring \<Rightarrow> ustring) \<Rightarrow> ustring \<Rightarrow> ustring" where
  "norm_str toLowerCase normalizeNFKC s = map kana (normalizeNFKC (toLowerCase s))"

text \<open>\<^verbatim>\<open>f.includes(q)\<close>: \<open>q\<close> occurs in \<open>f\<close> as a contiguous run of code units.\<close>

fun includes_str :: "'a list \<Rightarrow> 'a list \<Rightarrow> bool" where
  "includes_str [] q = (q = [])"
| "includes_str (x # xs) q = (prefix q (x # xs) \<or> includes_str xs q)"

text \<open>
  The array \<^verbatim>\<open>[v.title, v.opponent, v.matchDate, ...(v.contributors || [])]\<close>; a missing
  optional field is \<^verbatim>\<open>undefined\<close>, here \<open>None\<close>.
\<close>

definition fields :: "VideoItem \<Rightarrow> ustring option list" where
  "fields v = [Some (title v), opponent v, matchDate v] @
     (case contributors v of None \<Rightarrow> [] | Some cs \<Rightarrow> map Some cs)"

text \<open>\<^verbatim>\<open>.filter(Boolean)\<close> drops \<^verbatim>\<open>undefined\<close> and the empty string.\<close>

fun truthy :: "ustring option list \<Rightarrow> ustring list" where
  "truthy [] = []"
| "truthy (None # fs) = truthy fs"
| "truthy (Some f # fs) = (if f = [] then truthy fs else f # truthy fs)"

definition filtered ::
  "(ustring \<Rightarrow> ustring) \<Rightarrow> (ustring \<Rightarrow> ustring) \<Rightarrow> VideoItem list \<Rightarrow> ustring \<Rightarrow> VideoItem list" where
  "filtered toLowerCase normalizeNFKC lst q =
     (let qn = norm_str toLowerCase normalizeNFKC q
      in filter (\<lambda>v.
           if qn = [] then True
           else list_ex (\<lambda>f. includes_str f qn)
                  (map (norm_str toLowerCase normalizeNFKC) (truthy (fields v)))) lst)"

text \<open>A lowercasing of the ASCII letters, to run the search on concrete strings.\<close>

definition ascii_lower :: "ustring \<Rightarrow> ustring" where
  "ascii_lower s = map (\<lambda>c. if 0x41 \<le> c \<and> c \<le> 0x5A then c + 0x20 else c) s"

text \<open>Further concrete inputs: a second item, and a swipe from the anchor \<open>(0, 0)\<close>.\<close>

definition demo_item2 :: VideoItem where
  "demo_item2 = \<lparr> item_id = [0x62], title = [0x42], src = [], thumb = [],
      opponent = Some [0x58], matchDate = None, contributors = None \<rparr>"

definition swipe :: "real \<Rightarrow> real \<Rightarrow> BattlePage" where
  "swipe x y = run [TouchStart [\<lparr>clientX = 0, clientY = 0\<rparr>],
                    TouchMove [\<lparr>clientX = x, clientY = y\<rparr>]] playing"


section \<open>Basic facts\<close>

lemmas consts_defs = WHEEL_CLOSE_THRESHOLD_def SWIPE_X_THRESHOLD_def SWIPE_Y_THRESHOLD_def
  SWIPE_X_DISTANCE_def SWIPE_Y_DISTANCE_def

lemma playing_eq: "playing = initial\<lparr> active := Some demo_item, isPlaying := True \<rparr>"
  by (simp add: playing_def dispatch_def onPlay_def initial_def)

lemma swipe_eq:
  "swipe x y = playing\<lparr> touchStart := Some (0, 0), dragX := max 0 x, dragY := max 0 y \<rparr>"
  by (simp add: swipe_def playing_eq initial_def dispatch_def handleTouchStart_def
      handleTouchMove_def settle_def Let_def)

lemma closeHard_idem: "closeHard (closeHard s) = closeHard s"
  by (simp add: closeHard_def)

text \<open>Any positive number of timer callbacks in a row has the effect of one.\<close>

lemma fold_closeHard: "due \<noteq> [] \<Longrightarrow> fold (\<lambda>_. closeHard) due s = closeHard s"
proof (induction due arbitrary: s)
  case Nil then show ?case by simp
next
  case (Cons d due)
  show ?case
  proof (cases "due = []")
    case True then show ?thesis by simp
  next
    case False
    then have "fold (\<lambda>_. closeHard) due (closeHard s) = closeHard (closeHard s)"
      by (rule Cons.IH)
    then show ?thesis by (simp add: closeHard_idem)
  qed
qed

lemma fold_closeHard_clock:
  "now (fold (\<lambda>_. closeHard) due s) = now s \<and> timers (fold (\<lambda>_. closeHard) due s) = timers s"
  by (induction due arbitrary: s) (simp_all add: closeHard_def)

lemma advance_clock:
  "now (advance dt s) = now s + dt \<and>
   timers (advance dt s) = filter (\<lambda>d. now s + dt < d) (timers s)"
  by (simp add: advance_def Let_def fold_closeHard_clock)

lemma run_append: "run (es @ fs) s = run fs (run es s)"
  by (induction es arbitrary: s) simp_all

section \<open>Hard close\<close>

text \<open>
  C3. \<^verbatim>\<open>closeHard\<close> clears the active item, the playing and closing flags, the drag
  vector, the wheel energy and the touch anchor, and running it a second time right
  after changes nothing.
\<close>

theorem closeHard_clears_idempotent:
  "active (closeHard s) = None \<and> isPlaying (closeHard s) = False \<and>
   isClosing (closeHard s) = False \<and> dragX (closeHard s) = 0 \<and> dragY (closeHard s) = 0 \<and>
   wheelAccum (closeHard s) = 0 \<and> touchStart (closeHard s) = None \<and>
   closeHard (closeHard s) = closeHard s"
  by (simp add: closeHard_def)

section \<open>The dismiss decision on touch release\<close>

text \<open>
  C1. On touch release, with a recorded anchor and while playing, \<^verbatim>\<open>closeSoft\<close> is
  invoked (one more timer is scheduled) if and only if
  \<open>(dragX > 80 \<and> dragX > |dragY|) \<or> (dragY > 100 \<and> dragY \<ge> |dragX|)\<close>. When it is
  invoked the state is that of \<^verbatim>\<open>closeSoft\<close> with the anchor cleared; otherwise the drag
  vector is reset to \<open>(0, 0)\<close>, the anchor is cleared and the wheel energy keeps its
  value. The drags \<open>(90, 50)\<close> and \<open>(50, 110)\<close> commit, \<open>(90, 95)\<close> does not.
\<close>

theorem touch_release_commit:
  assumes "isPlaying s" and "touchStart s = Some a"
  shows "(timers (handleTouchEnd s) \<noteq> timers s \<longleftrightarrow>
            (dragX s > 80 \<and> dragX s > \<bar>dragY s\<bar>) \<or> (dragY s > 100 \<and> dragY s \<ge> \<bar>dragX s\<bar>))
     \<and> ((dragX s > 80 \<and> dragX s > \<bar>dragY s\<bar>) \<or> (dragY s > 100 \<and> dragY s \<ge> \<bar>dragX s\<bar>) \<longrightarrow>
            handleTouchEnd s = (closeSoft s)\<lparr> touchStart := None \<rparr>)
     \<and> (\<not> ((dragX s > 80 \<and> dragX s > \<bar>dragY s\<bar>) \<or> (dragY s > 100 \<and> dragY s \<ge> \<bar>dragX s\<bar>)) \<longrightarrow>
            handleTouchEnd s = s\<lparr> dragX := 0, dragY := 0, touchStart := None \<rparr>
          \<and> dragX (handleTouchEnd s) = 0 \<and> dragY (handleTouchEnd s) = 0
          \<and> wheelAccum (handleTouchEnd s) = wheelAccum s)
     \<and> (dragX s = 90 \<and> dragY s = 50 \<longrightarrow> timers (handleTouchEnd s) = timers s @ [now s + 260])
     \<and> (dragX s = 50 \<and> dragY s = 110 \<longrightarrow> timers (handleTouchEnd s) = timers s @ [now s + 260])
     \<and> (dragX s = 90 \<and> dragY s = 95 \<longrightarrow>
            timers (handleTouchEnd s) = timers s \<and> dragX (handleTouchEnd s) = 0 \<and>
            dragY (handleTouchEnd s) = 0)"
  using assms
  by (simp add: handleTouchEnd_def shouldClose_def closeSoft_def consts_defs)

theorem touch_release_commit_witness:
  "isPlaying (swipe 90 50) \<and> touchStart (swipe 90 50) = Some (0, 0) \<and>
   dragX (swipe 90 50) = 90 \<and> dragY (swipe 90 50) = 50 \<and>
   timers (handleTouchEnd (swipe 90 50)) = [260] \<and>
   isPlaying (swipe 50 110) \<and> touchStart (swipe 50 110) = Some (0, 0) \<and>
   timers (handleTouchEnd (swipe 50 110)) = [260] \<and>
   isPlaying (swipe 90 95) \<and> touchStart (swipe 90 95) = Some (0, 0) \<and>
   timers (handleTouchEnd (swipe 90 95)) = [] \<and>
   dragX (handleTouchEnd (swipe 90 95)) = 0 \<and> dragY (handleTouchEnd (swipe 90 95)) = 0"
proof -
  have p: "isPlaying (swipe x y)" "touchStart (swipe x y) = Some (0, 0)"
    "timers (swipe x y) = []" "now (swipe x y) = 0" for x y
    by (simp_all add: swipe_eq playing_eq initial_def)
  have d: "dragX (swipe 90 50) = 90" "dragY (swipe 90 50) = 50"
    "dragX (swipe 50 110) = 50" "dragY (swipe 50 110) = 110"
    "dragX (swipe 90 95) = 90" "dragY (swipe 90 95) = 95"
    by (simp_all add: swipe_eq)
  have "dragX (swipe 90 50) = 90 \<and> dragY (swipe 90 50) = 50 \<longrightarrow>
      timers (handleTouchEnd (swipe 90 50)) = timers (swipe 90 50) @ [now (swipe 90 50) + 260]"
    using touch_release_commit [OF p(1) p(2), of 90 50] by blast
  then have a: "timers (handleTouchEnd (swipe 90 50)) = [260]"
    using d(1,2) by (simp add: p)
  have "dragX (swipe 50 110) = 50 \<and> dragY (swipe 50 110) = 110 \<longrightarrow>
      timers (handleTouchEnd (swipe 50 110)) = timers (swipe 50 110) @ [now (swipe 50 110) + 260]"
    using touch_release_commit [OF p(1) p(2), of 50 110] by blast
  then have b: "timers (handleTouchEnd (swipe 50 110)) = [260]"
    using d(3,4) by (simp add: p)
  have "dragX (swipe 90 95) = 90 \<and> dragY (swipe 90 95) = 95 \<longrightarrow>
      timers (handleTouchEnd (swipe 90 95)) = timers (swipe 90 95) \<and>
      dragX (handleTouchEnd (swipe 90 95)) = 0 \<and> dragY (handleTouchEnd (swipe 90 95)) = 0"
    using touch_release_commit [OF p(1) p(2), of 90 95] by blast
  then have c: "timers (handleTouchEnd (swipe 90 95)) = [] \<and>
      dragX (handleTouchEnd (swipe 90 95)) = 0 \<and> dragY (handleTouchEnd (swipe 90 95)) = 0"
    using d(5,6) by (simp add: p)
  show ?thesis using a b c p(1,2) d(1,2) by simp
qed

section \<open>The visual mapping of the drag vector\<close>

text \<open>
  C4. For a drag vector with \<open>dragX \<ge> 0\<close> and \<open>dragY \<ge> 0\<close> the render computes
  \<open>progressX = min (dragX / 200) 1\<close>, \<open>progressY = min (dragY / 240) 1\<close>,
  \<open>progress = max progressX progressY\<close>, \<open>translateX = 0.5 * dragX\<close>,
  \<open>translateY = 0.6 * dragY\<close>; \<open>progress\<close> lies in \<open>[0, 1]\<close>,
  \<open>overlayAlpha = 0.8 * (1 - 0.6 * progress)\<close> in \<open>[0.32, 0.8]\<close>,
  \<open>scale = 1 - 0.05 * progress\<close> in \<open>[0.95, 1]\<close> and the content opacity
  \<open>1 - 0.4 * progress\<close> in \<open>[0.6, 1]\<close>; at the zero drag \<open>progress\<close> is 0.
\<close>

theorem visual_mapping_bounds:
  assumes "0 \<le> dragX s" and "0 \<le> dragY s"
  shows "progressX s = min (dragX s / 200) 1 \<and> progressY s = min (dragY s / 240) 1
     \<and> progress s = max (progressX s) (progressY s)
     \<and> translateX s = 0.5 * dragX s \<and> translateY s = 0.6 * dragY s
     \<and> 0 \<le> progress s \<and> progress s \<le> 1
     \<and> overlayAlpha s = 0.8 * (1 - 0.6 * progress s)
     \<and> 0.32 \<le> overlayAlpha s \<and> overlayAlpha s \<le> 0.8
     \<and> scale s = 1 - 0.05 * progress s \<and> 0.95 \<le> scale s \<and> scale s \<le> 1
     \<and> modalOpacity s = 1 - 0.4 * progress s \<and> 0.6 \<le> modalOpacity s \<and> modalOpacity s \<le> 1
     \<and> (dragX s = 0 \<and> dragY s = 0 \<longrightarrow> progress s = 0)"
proof -
  have p0: "0 \<le> progress s"
    using assms by (simp add: progress_def progressX_def progressY_def consts_defs le_max_iff_disj)
  have p1: "progress s \<le> 1"
    by (simp add: progress_def progressX_def progressY_def)
  have z: "dragX s = 0 \<and> dragY s = 0 \<longrightarrow> progress s = 0"
    by (simp add: progress_def progressX_def progressY_def)
  have f: "progressX s = min (dragX s / 200) 1 \<and> progressY s = min (dragY s / 240) 1
     \<and> progress s = max (progressX s) (progressY s)
     \<and> translateX s = 0.5 * dragX s \<and> translateY s = 0.6 * dragY s"
    by (simp add: progressX_def progressY_def progress_def translateX_def translateY_def
        consts_defs)
  have b: "0.32 \<le> overlayAlpha s \<and> overlayAlpha s \<le> 0.8 \<and> 0.95 \<le> scale s \<and> scale s \<le> 1
     \<and> 0.6 \<le> modalOpacity s \<and> modalOpacity s \<le> 1"
    using p0 p1 by (simp add: overlayAlpha_def scale_def modalOpacity_def)
  show ?thesis
    using p0 p1 z f b by (simp add: overlayAlpha_def scale_def modalOpacity_def)
qed

theorem visual_mapping_bounds_witness:
  "0 \<le> dragX (swipe 100 60) \<and> 0 \<le> dragY (swipe 100 60) \<and>
   progress (swipe 100 60) = 0.5 \<and> overlayAlpha (swipe 100 60) = 0.56 \<and>
   scale (swipe 100 60) = 0.975 \<and> modalOpacity (swipe 100 60) = 0.8 \<and>
   translateX (swipe 100 60) = 50 \<and> translateY (swipe 100 60) = 36 \<and>
   dragX playing = 0 \<and> dragY playing = 0 \<and> progress playing = 0"
  using visual_mapping_bounds [of "swipe 100 60"] visual_mapping_bounds [of playing]
  by (simp add: swipe_eq playing_eq initial_def progressX_def progressY_def consts_defs
      overlayAlpha_def scale_def modalOpacity_def)

section \<open>Gating of the gestures\<close>

text \<open>
  C6. While \<^verbatim>\<open>isPlaying\<close> is false, a wheel event, a touch start, a touch move and a
  touch end each leave the whole state as it was; a touch end without a recorded anchor
  leaves the state as it was even while playing.
\<close>

theorem not_playing_gestures_noop:
  "(\<not> isPlaying s \<longrightarrow>
       handleWheel deltaY s = s \<and> handleTouchStart touches s = Inr s \<and>
       handleTouchMove touches s = Inr s \<and> handleTouchEnd s = s \<and>
       dispatch (Wheel deltaY) s = s \<and> dispatch (TouchStart touches) s = s \<and>
       dispatch (TouchMove touches) s = s \<and> dispatch TouchEnd s = s)
   \<and> (touchStart s = None \<longrightarrow> handleTouchEnd s = s \<and> dispatch TouchEnd s = s)"
  by (simp add: handleWheel_def handleTouchStart_def handleTouchMove_def handleTouchEnd_def
      dispatch_def settle_def)

theorem not_playing_gestures_noop_witness:
  "\<not> isPlaying (onPause (swipe 90 50)) \<and>
   handleWheel 500 (onPause (swipe 90 50)) = onPause (swipe 90 50) \<and>
   dispatch (TouchMove [\<lparr>clientX = 7, clientY = 9\<rparr>]) (onPause (swipe 90 50))
     = onPause (swipe 90 50) \<and>
   handleTouchEnd (onPause (swipe 90 50)) = onPause (swipe 90 50) \<and>
   isPlaying playing \<and> touchStart playing = None \<and> handleTouchEnd playing = playing"
  using not_playing_gestures_noop [of "onPause (swipe 90 50)" 500 "[\<lparr>clientX = 7, clientY = 9\<rparr>]"]
    not_playing_gestures_noop [of playing 0 "[]"]
  by (simp add: onPause_def swipe_eq playing_eq initial_def)

section \<open>The wheel tick\<close>

text \<open>
  C7. A wheel event with \<open>deltaY \<le> 0\<close> changes neither the wheel energy nor \<open>dragY\<close>
  (it changes nothing). With \<open>deltaY > 0\<close> while playing, the wheel energy grows by
  exactly \<open>deltaY\<close> and \<open>dragY\<close> becomes \<open>min (dragY + 0.4 * deltaY) 240\<close>, so the drag
  grows by at most 0.4 of what the energy grows by.
\<close>

theorem wheel_tick_effect:
  "(deltaY \<le> 0 \<longrightarrow>
       wheelAccum (handleWheel deltaY s) = wheelAccum s \<and> dragY (handleWheel deltaY s) = dragY s
       \<and> handleWheel deltaY s = s)
   \<and> (0 < deltaY \<and> isPlaying s \<longrightarrow>
       wheelAccum (handleWheel deltaY s) = wheelAccum s + deltaY \<and>
       dragY (handleWheel deltaY s) = min (dragY s + 0.4 * deltaY) 240 \<and>
       dragY (handleWheel deltaY s) \<le> dragY s + 0.4 * deltaY)"
  by (simp add: handleWheel_def closeSoft_def Let_def consts_defs algebra_simps)

theorem wheel_tick_effect_witness:
  "(-3::real) \<le> 0 \<and> handleWheel (-3) (swipe 90 50) = swipe 90 50 \<and>
   (0::real) < 50 \<and> isPlaying (swipe 90 50) \<and>
   wheelAccum (handleWheel 50 (swipe 90 50)) = 50 \<and> dragY (handleWheel 50 (swipe 90 50)) = 70 \<and>
   dragY (handleWheel 1000 (swipe 90 50)) = 240"
  using wheel_tick_effect [of "-3" "swipe 90 50"] wheel_tick_effect [of 50 "swipe 90 50"]
    wheel_tick_effect [of 1000 "swipe 90 50"]
  by (simp add: swipe_eq playing_eq initial_def)

section \<open>The wheel energy never decreases under a gesture\<close>

lemma wheelAccum_handleWheel: "wheelAccum s \<le> wheelAccum (handleWheel d s)"
  by (simp add: handleWheel_def closeSoft_def Let_def)

lemma wheelAccum_handleTouchStart: "wheelAccum (settle s (handleTouchStart ts s)) = wheelAccum s"
  by (simp add: handleTouchStart_def settle_def split: list.splits)

lemma wheelAccum_handleTouchMove: "wheelAccum (settle s (handleTouchMove ts s)) = wheelAccum s"
  by (simp add: handleTouchMove_def settle_def Let_def split: list.splits option.splits prod.splits)

lemma wheelAccum_handleTouchEnd: "wheelAccum (handleTouchEnd s) = wheelAccum s"
  by (simp add: handleTouchEnd_def closeSoft_def Let_def)

lemma wheelAccum_advance:
  "wheelAccum (advance dt s) =
     (if filter (\<lambda>d. d \<le> now s + dt) (timers s) = [] then wheelAccum s else 0)"
  by (simp add: advance_def Let_def fold_closeHard closeHard_def)

text \<open>
  C8. The wheel energy does not decrease under any gesture event: a wheel event leaves it
  equal or larger, the three touch handlers leave it equal. The playback-start handler
  and \<^verbatim>\<open>closeHard\<close> set it to 0, and an event that makes it smaller is the playback
  start or an event that ran \<^verbatim>\<open>closeHard\<close> (the completion signal, or a timer
  becoming due); the energy is 0 afterwards.
\<close>

theorem wheelAccum_monotone:
  "wheelAccum s \<le> wheelAccum (handleWheel deltaY s)
   \<and> (\<forall>r. handleTouchStart touches s = Inr r \<longrightarrow> wheelAccum r = wheelAccum s)
   \<and> (\<forall>r. handleTouchMove touches s = Inr r \<longrightarrow> wheelAccum r = wheelAccum s)
   \<and> wheelAccum (handleTouchEnd s) = wheelAccum s
   \<and> wheelAccum (onPlay s) = 0 \<and> wheelAccum (closeHard s) = 0
   \<and> (wheelAccum (dispatch e s) < wheelAccum s \<longrightarrow>
        wheelAccum (dispatch e s) = 0 \<and>
        (e = Play
         \<or> (e = TransitionEnd True \<and> dispatch e s = closeHard s)
         \<or> (\<exists>dt. e = Advance dt \<and>
               dispatch e s = closeHard (s\<lparr> now := now s + dt,
                                   timers := filter (\<lambda>d. now s + dt < d) (timers s) \<rparr>))))"
proof -
  have a: "\<forall>r. handleTouchStart touches s = Inr r \<longrightarrow> wheelAccum r = wheelAccum s"
    by (auto simp: handleTouchStart_def split: list.splits if_splits)
  have b: "\<forall>r. handleTouchMove touches s = Inr r \<longrightarrow> wheelAccum r = wheelAccum s"
    by (auto simp: handleTouchMove_def Let_def
        split: list.splits if_splits option.splits prod.splits)
  have c: "wheelAccum (dispatch e s) < wheelAccum s \<longrightarrow>
        wheelAccum (dispatch e s) = 0 \<and>
        (e = Play
         \<or> (e = TransitionEnd True \<and> dispatch e s = closeHard s)
         \<or> (\<exists>dt. e = Advance dt \<and>
               dispatch e s = closeHard (s\<lparr> now := now s + dt,
                                   timers := filter (\<lambda>d. now s + dt < d) (timers s) \<rparr>)))"
  proof (cases e)
    case (Wheel d)
    then show ?thesis using wheelAccum_handleWheel [of s d] by (simp add: dispatch_def)
  next
    case (TouchStart ts)
    then show ?thesis by (simp add: dispatch_def wheelAccum_handleTouchStart)
  next
    case (TouchMove ts)
    then show ?thesis by (simp add: dispatch_def wheelAccum_handleTouchMove)
  next
    case TouchEnd
    then show ?thesis by (simp add: dispatch_def wheelAccum_handleTouchEnd)
  next
    case (TransitionEnd direct)
    then show ?thesis by (simp add: dispatch_def onTransitionEnd_def closeHard_def)
  next
    case (Advance dt)
    show ?thesis
    proof (cases "filter (\<lambda>d. d \<le> now s + dt) (timers s) = []")
      case True
      then show ?thesis using Advance by (simp add: dispatch_def wheelAccum_advance)
    next
      case False
      then have "advance dt s = closeHard (s\<lparr> now := now s + dt,
          timers := filter (\<lambda>d. now s + dt < d) (timers s) \<rparr>)"
        by (simp add: advance_def Let_def fold_closeHard)
      then show ?thesis using Advance by (simp add: dispatch_def closeHard_def)
    qed
  qed (simp_all add: dispatch_def closeSoft_def onKeyDown_def onPlay_def onPause_def)
  show ?thesis
    using a b c wheelAccum_handleWheel [of s deltaY]
    by (simp add: wheelAccum_handleTouchEnd onPlay_def closeHard_def)
qed

theorem wheelAccum_monotone_witness:
  "handleTouchStart [\<lparr>clientX = 1, clientY = 2\<rparr>] (handleWheel 50 playing)
     = Inr ((handleWheel 50 playing)\<lparr> touchStart := Some (1, 2), dragX := 0, dragY := 0 \<rparr>)
   \<and> wheelAccum ((handleWheel 50 playing)\<lparr> touchStart := Some (1, 2), dragX := 0, dragY := 0 \<rparr>) = 50
   \<and> wheelAccum (dispatch Play (handleWheel 50 playing)) < wheelAccum (handleWheel 50 playing)
   \<and> wheelAccum (dispatch Play (handleWheel 50 playing)) = 0"
proof -
  let ?s = "handleWheel 50 playing"
  let ?r = "?s\<lparr> touchStart := Some (1, 2), dragX := 0, dragY := 0 \<rparr>"
  have w: "wheelAccum ?s = 50" "isPlaying ?s" "active ?s \<noteq> None"
    by (simp_all add: handleWheel_def Let_def consts_defs playing_eq initial_def)
  have h: "handleTouchStart [\<lparr>clientX = 1, clientY = 2\<rparr>] ?s = Inr ?r"
    using w(2) by (simp add: handleTouchStart_def)
  have l: "wheelAccum (dispatch Play ?s) < wheelAccum ?s"
    using w by (auto simp: dispatch_def onPlay_def)
  have "\<forall>r. handleTouchStart [\<lparr>clientX = 1, clientY = 2\<rparr>] ?s = Inr r \<longrightarrow> wheelAccum r = wheelAccum ?s"
    and "wheelAccum (dispatch Play ?s) < wheelAccum ?s \<longrightarrow> wheelAccum (dispatch Play ?s) = 0"
    using wheelAccum_monotone [of ?s 0 "[\<lparr>clientX = 1, clientY = 2\<rparr>]" Play] by blast+
  then have "wheelAccum ?r = 50" and "wheelAccum (dispatch Play ?s) = 0"
    using h l w(1) by auto
  then show ?thesis using h l by simp
qed

section \<open>The wheel commit is repeated on every later tick\<close>

lemma handleWheel_frame:
  "isPlaying (handleWheel d s) = isPlaying s \<and> active (handleWheel d s) = active s \<and>
   now (handleWheel d s) = now s"
  by (simp add: handleWheel_def closeSoft_def Let_def)

lemma handleWheel_timers:
  "isPlaying s \<Longrightarrow> timers (handleWheel d s) =
     timers s @ (if 0 < d \<and> WHEEL_CLOSE_THRESHOLD \<le> wheelAccum s + d then [now s + 260] else [])"
  by (simp add: handleWheel_def closeSoft_def Let_def)

lemma handleWheel_accum:
  "isPlaying s \<Longrightarrow>
   wheelAccum (handleWheel d s) = (if d \<le> 0 then wheelAccum s else wheelAccum s + d)"
  by (simp add: handleWheel_def closeSoft_def Let_def)

lemma run_wheels_timers:
  "isPlaying s \<Longrightarrow> active s \<noteq> None \<Longrightarrow>
   timers (run (map Wheel ds) s) =
     timers s @ replicate (wheel_commits (wheelAccum s) ds) (now s + 260)"
proof (induction ds arbitrary: s)
  case Nil
  then show ?case by simp
next
  case (Cons d ds)
  let ?s' = "handleWheel d s"
  have d: "dispatch (Wheel d) s = ?s'" using Cons.prems(2) by (auto simp: dispatch_def)
  have p: "isPlaying ?s'" "active ?s' \<noteq> None" "now ?s' = now s"
    using Cons.prems by (simp_all add: handleWheel_frame)
  have "timers (run (map Wheel ds) ?s') =
      timers ?s' @ replicate (wheel_commits (wheelAccum ?s') ds) (now ?s' + 260)"
    using p(1,2) by (rule Cons.IH)
  then show ?case
    using Cons.prems(1) d p(3)
    by (simp add: handleWheel_timers handleWheel_accum replicate_append_same)
qed

lemma wheel_commits_above:
  "WHEEL_CLOSE_THRESHOLD \<le> acc \<Longrightarrow> \<forall>d \<in> set ds. 0 < d \<Longrightarrow> wheel_commits acc ds = length ds"
  by (induction ds arbitrary: acc) auto

lemma handleWheel_closing:
  "isPlaying s \<Longrightarrow> isClosing (handleWheel d s) =
     (isClosing s \<or> (0 < d \<and> WHEEL_CLOSE_THRESHOLD \<le> wheelAccum s + d))"
  by (auto simp: handleWheel_def closeSoft_def Let_def)

lemma handleWheel_commit_state:
  "isPlaying s \<Longrightarrow> 0 < d \<Longrightarrow> WHEEL_CLOSE_THRESHOLD \<le> wheelAccum s + d \<Longrightarrow>
   handleWheel d s =
     closeSoft (s\<lparr> wheelAccum := wheelAccum s + d,
                   dragY := min (dragY s + d * 0.4) SWIPE_Y_DISTANCE \<rparr>)"
  by (simp add: handleWheel_def Let_def)

lemma run_wheels_closing:
  "isPlaying s \<Longrightarrow> active s \<noteq> None \<Longrightarrow>
   isClosing (run (map Wheel ds) s) = (isClosing s \<or> 0 < wheel_commits (wheelAccum s) ds)"
proof (induction ds arbitrary: s)
  case Nil
  then show ?case by simp
next
  case (Cons d ds)
  let ?s' = "handleWheel d s"
  have d: "dispatch (Wheel d) s = ?s'" using Cons.prems(2) by (auto simp: dispatch_def)
  have p: "isPlaying ?s'" "active ?s' \<noteq> None"
    using Cons.prems by (simp_all add: handleWheel_frame)
  have "isClosing (run (map Wheel ds) ?s') =
      (isClosing ?s' \<or> 0 < wheel_commits (wheelAccum ?s') ds)"
    using p by (rule Cons.IH)
  then show ?case
    using Cons.prems(1) d
    by (auto simp: handleWheel_closing handleWheel_accum)
qed

text \<open>
  C2, as the claim states it, fails: the tick that brings the wheel energy to exactly 120
  invokes \<^verbatim>\<open>closeSoft\<close> once, and the next tick, on which the energy is still above
  120, invokes it again (a second timer is scheduled).
\<close>

theorem wheel_closeSoft_repeats_counterexample:
  "wheelAccum (run [Wheel 120] playing) = 120 \<and>
   timers (run [Wheel 120] playing) = [260] \<and>
   WHEEL_CLOSE_THRESHOLD \<le> wheelAccum (run [Wheel 120, Wheel 10] playing) \<and>
   timers (run [Wheel 120, Wheel 10] playing) = [260, 260]"
  by (simp add: playing_eq initial_def dispatch_def handleWheel_def closeSoft_def Let_def
      consts_defs)

text \<open>
  C2, amended. For every sequence of wheel events on an open viewer that is playing,
  \<^verbatim>\<open>closeSoft\<close> is invoked once on each tick with \<open>deltaY > 0\<close> that leaves the wheel
  energy at or above 120: on the tick that reaches the threshold and again on every later
  counted tick. On such a tick the state after the tick is that of \<^verbatim>\<open>closeSoft\<close> applied
  to the state with the energy and the drag updated: the closing flag is set and one more
  timer, due 260 ms later, is scheduled. On any other tick neither the closing flag nor
  the timer queue changes. Over a sequence of ticks, the timers scheduled are as many as
  the committing ticks, and the closing flag is set at the end exactly if it was set
  before or some tick committed. Once the energy is at or above 120, every tick of a
  sequence of positive ticks commits.
\<close>

theorem wheel_commits_each_tick:
  assumes "isPlaying s" and "active s \<noteq> None"
  shows "timers (run (map Wheel ds) s) =
           timers s @ replicate (wheel_commits (wheelAccum s) ds) (now s + 260)
     \<and> isClosing (run (map Wheel ds) s) = (isClosing s \<or> 0 < wheel_commits (wheelAccum s) ds)
     \<and> (WHEEL_CLOSE_THRESHOLD \<le> wheelAccum s \<and> (\<forall>d \<in> set ds. 0 < d) \<longrightarrow>
           timers (run (map Wheel ds) s) = timers s @ replicate (length ds) (now s + 260))
     \<and> (0 < deltaY \<and> 120 \<le> wheelAccum s + deltaY \<longrightarrow>
           handleWheel deltaY s =
             closeSoft (s\<lparr> wheelAccum := wheelAccum s + deltaY,
                           dragY := min (dragY s + deltaY * 0.4) 240 \<rparr>)
           \<and> isClosing (handleWheel deltaY s)
           \<and> timers (handleWheel deltaY s) = timers s @ [now s + 260])
     \<and> (\<not> (0 < deltaY \<and> 120 \<le> wheelAccum s + deltaY) \<longrightarrow>
           isClosing (handleWheel deltaY s) = isClosing s
           \<and> timers (handleWheel deltaY s) = timers s)"
proof -
  have a: "timers (run (map Wheel ds) s) =
           timers s @ replicate (wheel_commits (wheelAccum s) ds) (now s + 260)"
    using assms by (rule run_wheels_timers)
  have b: "isClosing (run (map Wheel ds) s) =
      (isClosing s \<or> 0 < wheel_commits (wheelAccum s) ds)"
    using assms by (rule run_wheels_closing)
  have c: "WHEEL_CLOSE_THRESHOLD \<le> wheelAccum s \<and> (\<forall>d \<in> set ds. 0 < d) \<longrightarrow>
           timers (run (map Wheel ds) s) = timers s @ replicate (length ds) (now s + 260)"
    using a by (simp add: wheel_commits_above)
  have d: "0 < deltaY \<and> 120 \<le> wheelAccum s + deltaY \<longrightarrow>
           handleWheel deltaY s =
             closeSoft (s\<lparr> wheelAccum := wheelAccum s + deltaY,
                           dragY := min (dragY s + deltaY * 0.4) 240 \<rparr>)
           \<and> isClosing (handleWheel deltaY s)
           \<and> timers (handleWheel deltaY s) = timers s @ [now s + 260]"
    using assms(1)
    by (simp add: handleWheel_commit_state consts_defs closeSoft_def)
  have e: "\<not> (0 < deltaY \<and> 120 \<le> wheelAccum s + deltaY) \<longrightarrow>
           isClosing (handleWheel deltaY s) = isClosing s
           \<and> timers (handleWheel deltaY s) = timers s"
    using assms(1) by (auto simp: handleWheel_closing handleWheel_timers consts_defs)
  show ?thesis using a b c d e by (simp only: simp_thms)
qed

theorem wheel_commits_each_tick_witness:
  "isPlaying playing \<and> active playing \<noteq> None \<and> \<not> isClosing playing \<and>
   timers (run (map Wheel [60, -5, 60, 10]) playing) = [260, 260] \<and>
   isClosing (run (map Wheel [60, -5, 60, 10]) playing) \<and>
   \<not> isClosing (run (map Wheel [60, -5, 50]) playing) \<and>
   (0::real) < 120 \<and> (120::real) \<le> wheelAccum playing + 120 \<and>
   isClosing (handleWheel 120 playing) \<and> timers (handleWheel 120 playing) = [260] \<and>
   \<not> isClosing (handleWheel 119 playing) \<and> timers (handleWheel 119 playing) = [] \<and>
   isPlaying (handleWheel 120 playing) \<and> active (handleWheel 120 playing) \<noteq> None \<and>
   WHEEL_CLOSE_THRESHOLD \<le> wheelAccum (handleWheel 120 playing) \<and>
   (0::real) < 10 \<and> (0::real) < 5 \<and>
   timers (run (map Wheel [10, 5]) (handleWheel 120 playing)) = [260, 260, 260]"
proof -
  have p: "isPlaying playing" "active playing \<noteq> None" "timers playing = []" "now playing = 0"
    "wheelAccum playing = 0" "\<not> isClosing playing"
    by (simp_all add: playing_eq initial_def)
  have q: "isPlaying (handleWheel 120 playing)" "active (handleWheel 120 playing) \<noteq> None"
    "now (handleWheel 120 playing) = 0"
    using p by (simp_all add: handleWheel_frame)
  have w: "WHEEL_CLOSE_THRESHOLD \<le> wheelAccum (handleWheel 120 playing)"
    using p by (simp add: handleWheel_accum consts_defs)
  have r: "WHEEL_CLOSE_THRESHOLD \<le> wheelAccum (handleWheel 120 playing) \<and>
      (\<forall>d \<in> set [10, 5::real]. 0 < d)"
    using w by simp
  have h: "(0::real) < 120 \<and> (120::real) \<le> wheelAccum playing + 120"
    "\<not> ((0::real) < 119 \<and> (120::real) \<le> wheelAccum playing + 119)"
    by (simp_all add: p)
  note t1 = wheel_commits_each_tick [OF p(1) p(2), of "[60, -5, 60, 10]" 0]
  note t2 = wheel_commits_each_tick [OF p(1) p(2), of "[60, -5, 50]" 0]
  note t3 = wheel_commits_each_tick [OF p(1) p(2), of "[]" 120]
  note t4 = wheel_commits_each_tick [OF p(1) p(2), of "[]" 119]
  note t5 = wheel_commits_each_tick [OF q(1) q(2), of "[10, 5]" 0]
  have a: "timers (run (map Wheel [60, -5, 60, 10]) playing) = [260, 260]"
    using t1 [THEN conjunct1] by (simp add: p consts_defs)
  have a1: "isClosing (run (map Wheel [60, -5, 60, 10]) playing)"
    using t1 [THEN conjunct2, THEN conjunct1] by (simp add: p consts_defs)
  have a2: "\<not> isClosing (run (map Wheel [60, -5, 50]) playing)"
    using t2 [THEN conjunct2, THEN conjunct1] by (simp add: p consts_defs)
  have "isClosing (handleWheel 120 playing) \<and>
      timers (handleWheel 120 playing) = timers playing @ [now playing + 260]"
    using t3 [THEN conjunct2, THEN conjunct2, THEN conjunct2, THEN conjunct1, THEN mp, OF h(1)]
    by (rule conjunct2)
  then have c: "isClosing (handleWheel 120 playing)" "timers (handleWheel 120 playing) = [260]"
    by (simp_all add: p)
  have "isClosing (handleWheel 119 playing) = isClosing playing \<and>
      timers (handleWheel 119 playing) = timers playing"
    using h(2)
    by (rule t4 [THEN conjunct2, THEN conjunct2, THEN conjunct2, THEN conjunct2, THEN mp])
  then have n: "\<not> isClosing (handleWheel 119 playing)" "timers (handleWheel 119 playing) = []"
    by (simp_all add: p)
  have "timers (run (map Wheel [10, 5]) (handleWheel 120 playing)) =
      timers (handleWheel 120 playing) @
        replicate (length [10, 5::real]) (now (handleWheel 120 playing) + 260)"
    using r by (rule t5 [THEN conjunct2, THEN conjunct2, THEN conjunct1, THEN mp])
  then have b: "timers (run (map Wheel [10, 5]) (handleWheel 120 playing)) = [260, 260, 260]"
    by (simp add: c(2) q(3))
  show ?thesis using p(1,2,6) q(1,2) w a a1 a2 c n b h(1) by simp
qed

section \<open>The range of the drag vector\<close>







section \<open>The fallback timer\<close>

lemma elapsed_Cons: "elapsed (e # es) = elapsed [e] + elapsed es"
  by (cases e) simp_all

lemma now_dispatch: "now (dispatch e s) = now s + elapsed [e]"
  by (cases e)
     (simp_all add: dispatch_def advance_clock handleWheel_def closeSoft_def Let_def
        handleTouchStart_def handleTouchMove_def handleTouchEnd_def settle_def onKeyDown_def
        onTransitionEnd_def closeHard_def onPlay_def onPause_def
        split: list.splits option.splits prod.splits)

lemma now_run: "now (run es s) = now s + elapsed es"
proof (induction es arbitrary: s)
  case Nil
  then show ?case by simp
next
  case (Cons e es)
  have "now (run (e # es) s) = now (dispatch e s) + elapsed es"
    by (simp add: Cons.IH)
  then show ?case
    using elapsed_Cons [of e es] by (simp add: now_dispatch)
qed

text \<open>A pending timer stays in the queue until the clock reaches its due time.\<close>

lemma timers_dispatch:
  "d \<in> set (timers s) \<Longrightarrow> now (dispatch e s) < d \<Longrightarrow> d \<in> set (timers (dispatch e s))"
proof (cases e)
  case (Advance dt)
  assume "d \<in> set (timers s)" and "now (dispatch e s) < d"
  then show ?thesis using Advance by (simp add: dispatch_def advance_clock)
qed (simp_all add: dispatch_def handleWheel_def closeSoft_def Let_def
        handleTouchStart_def handleTouchMove_def handleTouchEnd_def settle_def onKeyDown_def
        onTransitionEnd_def closeHard_def onPlay_def onPause_def
        split: list.splits option.splits prod.splits)

lemma timers_run:
  "d \<in> set (timers s) \<Longrightarrow> now s + elapsed es < d \<Longrightarrow> d \<in> set (timers (run es s))"
proof (induction es arbitrary: s)
  case Nil
  then show ?case by simp
next
  case (Cons e es)
  have n: "now (dispatch e s) + elapsed es < d"
    using Cons.prems(2) elapsed_Cons [of e es] by (simp add: now_dispatch)
  then have "now (dispatch e s) < d" by simp
  with Cons.prems(1) have "d \<in> set (timers (dispatch e s))" by (rule timers_dispatch)
  then have "d \<in> set (timers (run es (dispatch e s)))" using n by (rule Cons.IH)
  then show ?case by simp
qed

lemma advance_due_cleared:
  assumes "d \<in> set (timers s)" and "d \<le> now s + dt"
  shows "cleared (advance dt s)"
proof -
  have "d \<in> set (filter (\<lambda>d. d \<le> now s + dt) (timers s))" using assms by simp
  then have "filter (\<lambda>d. d \<le> now s + dt) (timers s) \<noteq> []" by (metis empty_iff empty_set)
  then have "advance dt s = closeHard (s\<lparr> now := now s + dt,
      timers := filter (\<lambda>d. now s + dt < d) (timers s) \<rparr>)"
    by (simp add: advance_def Let_def fold_closeHard)
  then show ?thesis by (simp add: cleared_def closeHard_def)
qed

text \<open>
  C9. \<^verbatim>\<open>closeSoft\<close> only sets the closing flag and schedules a timer due 260 ms later.
  Whatever events follow it, with or without a completion signal among them, once the
  clock has moved by 260 ms the timer has run \<^verbatim>\<open>closeHard\<close>: if less than 260 ms have
  passed during the events \<open>es\<close> and the next passage of time reaches 260 ms, the state
  after it is cleared.
\<close>

theorem closeSoft_fallback_reaches_closed:
  "closeSoft s = s\<lparr> isClosing := True, timers := timers s @ [now s + 260] \<rparr>
   \<and> active (closeSoft s) = active s \<and> isPlaying (closeSoft s) = isPlaying s
   \<and> dragX (closeSoft s) = dragX s \<and> dragY (closeSoft s) = dragY s
   \<and> wheelAccum (closeSoft s) = wheelAccum s \<and> touchStart (closeSoft s) = touchStart s
   \<and> (elapsed es < 260 \<and> 260 \<le> elapsed es + dt \<longrightarrow>
        cleared (run (es @ [Advance dt]) (closeSoft s))
        \<and> now (run (es @ [Advance dt]) (closeSoft s)) = now s + elapsed es + dt)"
proof -
  have "cleared (run (es @ [Advance dt]) (closeSoft s))
      \<and> now (run (es @ [Advance dt]) (closeSoft s)) = now s + elapsed es + dt"
    if e: "elapsed es < 260" "260 \<le> elapsed es + dt"
  proof -
    let ?d = "now s + 260"
    let ?s' = "run es (closeSoft s)"
    have n0: "now (closeSoft s) = now s" by (simp add: closeSoft_def)
    have "?d \<in> set (timers (closeSoft s))" by (simp add: closeSoft_def)
    moreover have "now (closeSoft s) + elapsed es < ?d" using e(1) n0 by simp
    ultimately have m: "?d \<in> set (timers ?s')" by (rule timers_run)
    have n: "now ?s' = now s + elapsed es" by (simp add: now_run n0)
    then have "?d \<le> now ?s' + dt" using e(2) by simp
    with m have "cleared (advance dt ?s')" by (rule advance_due_cleared)
    then show ?thesis
      using n by (simp add: run_append dispatch_def advance_clock)
  qed
  then show ?thesis by (simp add: closeSoft_def)
qed

theorem closeSoft_fallback_reaches_closed_witness:
  "elapsed [Wheel 5, Advance 100, TouchEnd] < 260 \<and>
   260 \<le> elapsed [Wheel 5, Advance 100, TouchEnd] + 160 \<and>
   \<not> cleared (run [Wheel 5, Advance 100, TouchEnd] (closeSoft playing)) \<and>
   cleared (run ([Wheel 5, Advance 100, TouchEnd] @ [Advance 160]) (closeSoft playing)) \<and>
   now (run ([Wheel 5, Advance 100, TouchEnd] @ [Advance 160]) (closeSoft playing)) = 260"
proof -
  let ?es = "[Wheel 5, Advance 100, TouchEnd]"
  have e: "elapsed ?es < 260 \<and> 260 \<le> elapsed ?es + 160" by simp
  have n: "now playing = 0" by (simp add: playing_eq initial_def)
  have o: "\<not> cleared (run ?es (closeSoft playing))"
    by (simp add: cleared_def playing_eq initial_def closeSoft_def dispatch_def handleWheel_def
        handleTouchEnd_def advance_def Let_def consts_defs)
  have "cleared (run (?es @ [Advance 160]) (closeSoft playing))
      \<and> now (run (?es @ [Advance 160]) (closeSoft playing)) = now playing + elapsed ?es + 160"
    using closeSoft_fallback_reaches_closed [of playing ?es 160] e by blast
  then show ?thesis using e o n by simp
qed

section \<open>The search filter\<close>

text \<open>\<open>includes_str\<close> is the substring test.\<close>

lemma includes_str_iff: "includes_str f q \<longleftrightarrow> (\<exists>a b. f = a @ q @ b)"
proof (induction f)
  case Nil
  then show ?case by auto
next
  case (Cons x xs)
  show ?case
  proof
    assume "includes_str (x # xs) q"
    then consider "prefix q (x # xs)" | "includes_str xs q" by auto
    then show "\<exists>a b. x # xs = a @ q @ b"
    proof cases
      case 1
      then obtain b where "x # xs = q @ b" by (auto simp: prefix_def)
      then have "x # xs = [] @ q @ b" by simp
      then show ?thesis by blast
    next
      case 2
      then obtain a b where "xs = a @ q @ b" using Cons.IH by blast
      then have "x # xs = (x # a) @ q @ b" by simp
      then show ?thesis by blast
    qed
  next
    assume "\<exists>a b. x # xs = a @ q @ b"
    then obtain a b where ab: "x # xs = a @ q @ b" by blast
    show "includes_str (x # xs) q"
    proof (cases a)
      case Nil
      then have "prefix q (x # xs)" using ab by (simp add: prefix_def)
      then show ?thesis by simp
    next
      case (Cons y ys)
      then have "xs = ys @ q @ b" using ab by simp
      then have "includes_str xs q" using Cons.IH by blast
      then show ?thesis by simp
    qed
  qed
qed

lemma set_truthy: "set (truthy fs) = {f. Some f \<in> set fs \<and> f \<noteq> []}"
  by (induction fs rule: truthy.induct) auto

lemma Some_in_fields:
  "Some f \<in> set (fields v) \<longleftrightarrow>
     f = title v \<or> opponent v = Some f \<or> matchDate v = Some f \<or>
     (\<exists>cs. contributors v = Some cs \<and> f \<in> set cs)"
  by (auto simp: fields_def split: option.splits)

lemma field_match_iff:
  "list_ex (\<lambda>f. includes_str f qn) (map nrm (truthy (fields v))) \<longleftrightarrow>
     (\<exists>f. (f = title v \<or> opponent v = Some f \<or> matchDate v = Some f \<or>
            (\<exists>cs. contributors v = Some cs \<and> f \<in> set cs))
          \<and> f \<noteq> [] \<and> (\<exists>a b. nrm f = a @ qn @ b))"
proof -
  have "list_ex (\<lambda>f. includes_str f qn) (map nrm (truthy (fields v))) \<longleftrightarrow>
      (\<exists>f. Some f \<in> set (fields v) \<and> f \<noteq> [] \<and> includes_str (nrm f) qn)"
    by (auto simp: list_ex_iff set_truthy)
  then show ?thesis
    by (simp only: Some_in_fields includes_str_iff)
qed

text \<open>
  C10. For every list and query, with \<^verbatim>\<open>norm\<close> the composition of lowercasing, NFKC
  and the shift of the hiragana code units U+3041 to U+3096 by 0x60: when the normalised
  query is empty the search returns the list unchanged; otherwise it returns, in the
  order of the list, exactly the items that have a field among title, opponent, match
  date and contributors which is present (defined and not empty) and whose normalised
  text contains the normalised query as a substring.
\<close>

theorem search_filter:
  "(norm_str lo nf q = [] \<longrightarrow> filtered lo nf lst q = lst)
   \<and> (norm_str lo nf q \<noteq> [] \<longrightarrow>
        filtered lo nf lst q =
          filter (\<lambda>v. \<exists>f. (f = title v \<or> opponent v = Some f \<or> matchDate v = Some f \<or>
                           (\<exists>cs. contributors v = Some cs \<and> f \<in> set cs))
                         \<and> f \<noteq> []
                         \<and> (\<exists>a b. norm_str lo nf f = a @ norm_str lo nf q @ b)) lst)
   \<and> subseq (filtered lo nf lst q) lst
   \<and> norm_str lo nf x = map kana (nf (lo x))
   \<and> (0x3041 \<le> ch \<and> ch \<le> 0x3096 \<longrightarrow> unat (kana ch) = unat ch + 0x60)
   \<and> (ch < 0x3041 \<or> 0x3096 < ch \<longrightarrow> kana ch = ch)"
proof -
  have e: "norm_str lo nf q = [] \<longrightarrow> filtered lo nf lst q = lst"
    by (simp add: filtered_def Let_def)
  have n: "norm_str lo nf q \<noteq> [] \<longrightarrow>
        filtered lo nf lst q =
          filter (\<lambda>v. \<exists>f. (f = title v \<or> opponent v = Some f \<or> matchDate v = Some f \<or>
                           (\<exists>cs. contributors v = Some cs \<and> f \<in> set cs))
                         \<and> f \<noteq> []
                         \<and> (\<exists>a b. norm_str lo nf f = a @ norm_str lo nf q @ b)) lst"
    by (simp add: filtered_def Let_def field_match_iff)
  have s: "subseq (filtered lo nf lst q) lst"
    by (simp add: filtered_def Let_def)
  have k: "0x3041 \<le> ch \<and> ch \<le> 0x3096 \<longrightarrow> unat (kana ch) = unat ch + 0x60"
  proof
    assume r: "0x3041 \<le> ch \<and> ch \<le> 0x3096"
    then have "unat ch \<le> 0x3096" by (simp add: word_le_nat_alt)
    then have "unat (ch + 0x60) = unat ch + 0x60"
      by (simp add: unat_add_lem [THEN iffD1])
    then show "unat (kana ch) = unat ch + 0x60" using r by (simp add: kana_def)
  qed
  have k2: "ch < 0x3041 \<or> 0x3096 < ch \<longrightarrow> kana ch = ch"
    by (auto simp: kana_def)
  show ?thesis using e n s k k2 by (simp add: norm_str_def)
qed

theorem search_filter_witness:
  "norm_str ascii_lower (\<lambda>s. s) [] = [] \<and>
   filtered ascii_lower (\<lambda>s. s) [demo_item, demo_item2] [] = [demo_item, demo_item2] \<and>
   norm_str ascii_lower (\<lambda>s. s) [0x41] \<noteq> [] \<and>
   norm_str ascii_lower (\<lambda>s. s) (title demo_item) = [0x30A2, 0x61] \<and>
   filtered ascii_lower (\<lambda>s. s) [demo_item2, demo_item] [0x41] = [demo_item] \<and>
   unat (kana 0x3042) = 0x30A2 \<and> kana 0x41 = 0x41"
proof -
  let ?n = "norm_str ascii_lower (\<lambda>s. s)"
  let ?P = "\<lambda>v. \<exists>f. (f = title v \<or> opponent v = Some f \<or> matchDate v = Some f \<or>
                           (\<exists>cs. contributors v = Some cs \<and> f \<in> set cs))
                         \<and> f \<noteq> []
                         \<and> (\<exists>a b. ?n f = a @ ?n [0x41] @ b)"
  have a: "?n [0x41] = [0x61]" "?n [0x41] \<noteq> []"
    "?n (title demo_item) = [0x30A2, 0x61]" "?n [0x42] = [0x62]" "?n [0x58] = [0x78]"
    "?n [] = []"
    by (simp_all add: norm_str_def ascii_lower_def kana_def demo_item_def)
  have e: "filtered ascii_lower (\<lambda>s. s) [demo_item, demo_item2] [] = [demo_item, demo_item2]"
    using search_filter [of ascii_lower "\<lambda>s. s" "[]" "[demo_item, demo_item2]"] a(6) by blast
  have f: "filtered ascii_lower (\<lambda>s. s) [demo_item2, demo_item] [0x41] =
      filter ?P [demo_item2, demo_item]"
    using search_filter [of ascii_lower "\<lambda>s. s" "[0x41]" "[demo_item2, demo_item]"] a(2)
    by blast
  have "?n (title demo_item) = [0x30A2] @ ?n [0x41] @ []" by (simp add: a)
  then have "\<exists>a b. ?n (title demo_item) = a @ ?n [0x41] @ b" by blast
  moreover have "title demo_item \<noteq> []" by (simp add: demo_item_def)
  ultimately have p1: "?P demo_item" by blast
  have "\<not> includes_str [0x62::16 word] [0x61]" "\<not> includes_str [0x78::16 word] [0x61]"
    by simp_all
  then have n: "\<not> (\<exists>a b. ?n [0x42] = a @ ?n [0x41] @ b)"
    "\<not> (\<exists>a b. ?n [0x58] = a @ ?n [0x41] @ b)"
    by (simp_all only: a includes_str_iff not_False_eq_True)
  have d: "title demo_item2 = [0x42]" "opponent demo_item2 = Some [0x58]"
    "matchDate demo_item2 = None" "contributors demo_item2 = None"
    by (simp_all add: demo_item2_def)
  have p2: "\<not> ?P demo_item2"
  proof
    assume "?P demo_item2"
    then obtain f where "f = [0x42] \<or> f = [0x58]" and "\<exists>a b. ?n f = a @ ?n [0x41] @ b"
      unfolding d by auto
    then show False using n by blast
  qed
  have g: "filtered ascii_lower (\<lambda>s. s) [demo_item2, demo_item] [0x41] = [demo_item]"
    using f p1 p2 by simp
  have "(0x3041::16 word) \<le> 0x3042 \<and> (0x3042::16 word) \<le> 0x3096" by simp
  then have k: "unat (kana 0x3042) = unat (0x3042::16 word) + 0x60"
    using search_filter [of ascii_lower "\<lambda>s. s" "[]" "[]" "[]" "0x3042"] by blast
  have "(0x41::16 word) < 0x3041" by simp
  then have k2: "kana 0x41 = 0x41"
    using search_filter [of ascii_lower "\<lambda>s. s" "[]" "[]" "[]" "0x41"] by blast
  show ?thesis using a(2,3,6) e g k k2 by simp
qed

end
